theory Spec2Isabelle
  imports Main "HOL-Library.Word" "HOL-Library.Multiset"
begin

section \<open>Settings store (internal/settings/settings.go)\<close>

text \<open>
  The three feature sections are Go structs of booleans. Field names are prefixed with the
  section (\<open>ctr\<close>, \<open>cmp\<close>, \<open>img\<close>) because the Go field names \<open>View\<close>, \<open>Start\<close>, ... repeat
  across the three structs.
\<close>

record ContainerFeatures =
  ctr_View :: bool
  ctr_Start :: bool
  ctr_Stop :: bool
  ctr_Restart :: bool
  ctr_Delete :: bool

record ComposeFeatures =
  cmp_View :: bool
  cmp_Start :: bool
  cmp_Stop :: bool
  cmp_Restart :: bool

record ImageFeatures =
  img_View :: bool
  img_Delete :: bool
  img_Prune :: bool
  img_Pull :: bool

record FeatureSet =
  Containers :: ContainerFeatures
  Composes :: ComposeFeatures
  Images :: ImageFeatures

record Settings =
  AuthlessMode :: bool
  RemoveVolumesOnStop :: bool
  AdminFeatures :: FeatureSet
  PublicFeatures :: FeatureSet

text \<open>Go zero values of the structs (every boolean false).\<close>

definition zeroFeatureSet :: FeatureSet where
  "zeroFeatureSet =
     \<lparr>Containers = \<lparr>ctr_View = False, ctr_Start = False, ctr_Stop = False,
                     ctr_Restart = False, ctr_Delete = False\<rparr>,
      Composes = \<lparr>cmp_View = False, cmp_Start = False, cmp_Stop = False, cmp_Restart = False\<rparr>,
      Images = \<lparr>img_View = False, img_Delete = False, img_Prune = False, img_Pull = False\<rparr>\<rparr>"

definition zeroSettings :: Settings where
  "zeroSettings =
     \<lparr>AuthlessMode = False, RemoveVolumesOnStop = False,
      AdminFeatures = zeroFeatureSet, PublicFeatures = zeroFeatureSet\<rparr>"

definition isZeroFeatureSet :: "FeatureSet \<Rightarrow> bool" where
  "isZeroFeatureSet f =
     (\<not> ctr_View (Containers f) \<and> \<not> ctr_Start (Containers f) \<and> \<not> ctr_Stop (Containers f) \<and>
      \<not> ctr_Restart (Containers f) \<and> \<not> ctr_Delete (Containers f) \<and>
      \<not> cmp_View (Composes f) \<and> \<not> cmp_Start (Composes f) \<and> \<not> cmp_Stop (Composes f) \<and>
      \<not> cmp_Restart (Composes f) \<and>
      \<not> img_View (Images f) \<and> \<not> img_Delete (Images f) \<and> \<not> img_Prune (Images f) \<and>
      \<not> img_Pull (Images f))"

text \<open>The two literals assigned by \<open>applyDefaults\<close>; unnamed fields of a Go literal are zero.\<close>

definition adminDefaults :: FeatureSet where
  "adminDefaults =
     \<lparr>Containers = \<lparr>ctr_View = True, ctr_Start = True, ctr_Stop = True,
                     ctr_Restart = True, ctr_Delete = True\<rparr>,
      Composes = \<lparr>cmp_View = True, cmp_Start = True, cmp_Stop = True, cmp_Restart = True\<rparr>,
      Images = \<lparr>img_View = True, img_Delete = True, img_Prune = True, img_Pull = True\<rparr>\<rparr>"

definition publicDefaults :: FeatureSet where
  "publicDefaults =
     \<lparr>Containers = \<lparr>ctr_View = True, ctr_Start = False, ctr_Stop = False,
                     ctr_Restart = False, ctr_Delete = False\<rparr>,
      Composes = \<lparr>cmp_View = True, cmp_Start = False, cmp_Stop = False, cmp_Restart = False\<rparr>,
      Images = \<lparr>img_View = False, img_Delete = False, img_Prune = False, img_Pull = False\<rparr>\<rparr>"

definition applyDefaults :: "Settings \<Rightarrow> Settings" where
  "applyDefaults cur =
     (let cur1 = (if isZeroFeatureSet (AdminFeatures cur)
                  then cur\<lparr>AdminFeatures := adminDefaults\<rparr> else cur)
      in if isZeroFeatureSet (PublicFeatures cur1)
         then cur1\<lparr>PublicFeatures := publicDefaults\<rparr> else cur1)"

text \<open>
  What \<open>os.ReadFile\<close> can answer for the settings path, and the two uses of
  \<open>json.Unmarshal\<close> in \<open>load\<close>, which belong to the Go standard library and are parameters
  of the model. Decoding into \<open>&s.current\<close> may leave fields filled in even when it reports
  an error, so the decoder takes the destination and returns it together with the error flag
  (\<open>True\<close>: an error was returned). The decoder of the old flat format yields the two scalars,
  or \<open>None\<close> on error.
\<close>

datatype read_result = NotExist | ReadError | Data string

record json_lib =
  unmarshalSettings :: "string \<Rightarrow> Settings \<Rightarrow> Settings \<times> bool"
  unmarshalOld :: "string \<Rightarrow> (bool \<times> bool) option"
  marshalSettings :: "Settings \<Rightarrow> string option"

datatype settings_error = ReadingSettings | MarshalFailed | WriteFailed

definition load :: "json_lib \<Rightarrow> read_result \<Rightarrow> Settings \<Rightarrow> settings_error + Settings" where
  "load js file cur =
     (case file of
        NotExist \<Rightarrow> Inr (applyDefaults cur)
      | ReadError \<Rightarrow> Inl ReadingSettings
      | Data d \<Rightarrow>
          (case unmarshalSettings js d cur of
             (cur1, err) \<Rightarrow>
               let cur2 =
                 (if err then
                    (case unmarshalOld js d of
                       Some (a, r) \<Rightarrow> cur1\<lparr>AuthlessMode := a, RemoveVolumesOnStop := r\<rparr>
                     | None \<Rightarrow> cur1)
                  else cur1)
               in Inr (applyDefaults cur2)))"

text \<open>\<open>NewService\<close>: a fresh service (zero-valued \<open>current\<close>) is loaded from the file.\<close>

definition NewService :: "json_lib \<Rightarrow> read_result \<Rightarrow> settings_error + Settings" where
  "NewService js file = load js file zeroSettings"

text \<open>
  \<open>save\<close> and \<open>Update\<close>. The file is the one settings file; \<open>writable\<close> says whether
  \<open>os.WriteFile\<close> succeeds. \<open>Update\<close> applies the mutator to the in-memory copy first and
  keeps that change also when saving fails, as the Go code does.
\<close>

definition save :: "json_lib \<Rightarrow> bool \<Rightarrow> Settings \<Rightarrow> read_result \<Rightarrow> read_result \<times> settings_error option" where
  "save js writable cur file =
     (case marshalSettings js cur of
        None \<Rightarrow> (file, Some MarshalFailed)
      | Some d \<Rightarrow> if writable then (Data d, None) else (file, Some WriteFailed))"

definition Update ::
  "json_lib \<Rightarrow> bool \<Rightarrow> (Settings \<Rightarrow> Settings) \<Rightarrow> Settings \<Rightarrow> read_result
     \<Rightarrow> Settings \<times> read_result \<times> settings_error option" where
  "Update js writable fn cur file = (let cur1 = fn cur in (cur1, save js writable cur1 file))"

text \<open>
  The mutator that \<open>handleUpdateSettings\<close> passes to \<open>Update\<close>: each field of the decoded
  patch is a pointer, \<open>None\<close> for \<open>nil\<close>.
\<close>

record settingsPatch =
  p_AuthlessMode :: "bool option"
  p_RemoveVolumesOnStop :: "bool option"
  p_AdminFeatures :: "FeatureSet option"
  p_PublicFeatures :: "FeatureSet option"

definition patchSettings :: "settingsPatch \<Rightarrow> Settings \<Rightarrow> Settings" where
  "patchSettings patch st =
     (let st1 = (case p_AuthlessMode patch of None \<Rightarrow> st | Some v \<Rightarrow> st\<lparr>AuthlessMode := v\<rparr>);
          st2 = (case p_RemoveVolumesOnStop patch of
                   None \<Rightarrow> st1 | Some v \<Rightarrow> st1\<lparr>RemoveVolumesOnStop := v\<rparr>);
          st3 = (case p_AdminFeatures patch of None \<Rightarrow> st2 | Some v \<Rightarrow> st2\<lparr>AdminFeatures := v\<rparr>)
      in case p_PublicFeatures patch of None \<Rightarrow> st3 | Some v \<Rightarrow> st3\<lparr>PublicFeatures := v\<rparr>)"

section \<open>Auth middleware (internal/api, authMiddleware)\<close>

datatype authLevel = authLevelPublic | authLevelAdmin

text \<open>
  The middleware either answers 401 itself or calls the next handler with the level stored
  in the request context.
\<close>

datatype auth_outcome = Unauthorized | Next authLevel

definition HasPrefix :: "string \<Rightarrow> string \<Rightarrow> bool" where
  "HasPrefix s p = (take (length p) s = p)"

definition TrimPrefix :: "string \<Rightarrow> string \<Rightarrow> string" where
  "TrimPrefix s p = (if HasPrefix s p then drop (length p) s else s)"

text \<open>
  \<open>bearerToken\<close> is the local \<open>token\<close> computed from the Authorization header (the empty
  string when the header is absent, as \<open>Header.Get\<close> returns). \<open>ValidateToken\<close> is the auth
  service's method (JWT parsing and signature check), a parameter here: \<open>None\<close> is Go's
  \<open>nil\<close> error.
\<close>

definition bearerToken :: "string \<Rightarrow> string" where
  "bearerToken h = (if HasPrefix h ''Bearer '' then TrimPrefix h ''Bearer '' else [])"

definition isValidToken :: "(string \<Rightarrow> string option) \<Rightarrow> string \<Rightarrow> bool" where
  "isValidToken ValidateToken h =
     (bearerToken h \<noteq> [] \<and> ValidateToken (bearerToken h) = None)"

definition authMiddleware ::
  "bool \<Rightarrow> Settings \<Rightarrow> (string \<Rightarrow> string option) \<Rightarrow> string \<Rightarrow> auth_outcome" where
  "authMiddleware cfg_Auth_Enabled st ValidateToken h =
     (let authRequired = (cfg_Auth_Enabled \<and> \<not> AuthlessMode st) in
      if authRequired then
        (if \<not> isValidToken ValidateToken h then Unauthorized else Next authLevelAdmin)
      else
        Next (if isValidToken ValidateToken h then authLevelAdmin else authLevelPublic))"

section \<open>Rate limiter (internal/api, rateLimiter)\<close>

text \<open>
  A \<open>time.Time\<close> is an integer count of nanoseconds; \<open>t.After(u)\<close> is \<open>u < t\<close> and
  \<open>now.Add(-rateLimitWindow)\<close> is \<open>now - rateLimitWindow\<close>. The mutex is left out: every
  operation below is one critical section.
\<close>

definition rateLimitMax :: nat where
  "rateLimitMax = 5"

definition rateLimitWindow :: int where
  "rateLimitWindow = 60 * 1000000000"

record rateLimiter =
  buckets :: "string \<rightharpoonup> int list"

definition newRateLimiter :: rateLimiter where
  "newRateLimiter = \<lparr>buckets = Map.empty\<rparr>"

text \<open>
  \<open>times := rl.buckets[ip]\<close> (named \<open>stamps\<close> below) is the nil slice for an unknown
  key. The loop that refills \<open>valid := times[:0]\<close> in place keeps, in order, the entries
  after the cutoff; it writes only positions it has already read.
\<close>

definition bucketOf :: "rateLimiter \<Rightarrow> string \<Rightarrow> int list" where
  "bucketOf rl ip = (case buckets rl ip of None \<Rightarrow> [] | Some stamps \<Rightarrow> stamps)"

definition slideWindow :: "int \<Rightarrow> int list \<Rightarrow> int list" where
  "slideWindow cutoff stamps = filter (\<lambda>t. cutoff < t) stamps"

definition allow :: "int \<Rightarrow> string \<Rightarrow> rateLimiter \<Rightarrow> bool \<times> rateLimiter" where
  "allow now ip rl =
     (let cutoff = now - rateLimitWindow;
          stamps = bucketOf rl ip;
          valid = slideWindow cutoff stamps
      in if rateLimitMax \<le> length valid
         then (False, rl\<lparr>buckets := (buckets rl)(ip \<mapsto> valid)\<rparr>)
         else (True, rl\<lparr>buckets := (buckets rl)(ip \<mapsto> valid @ [now])\<rparr>))"

text \<open>One iteration of the loop of \<open>gc\<close> (one tick of its ticker), run at time \<open>now\<close>.\<close>

definition gcTick :: "int \<Rightarrow> rateLimiter \<Rightarrow> rateLimiter" where
  "gcTick now rl =
     (let cutoff = now - rateLimitWindow in
      rl\<lparr>buckets :=
           (\<lambda>ip. case buckets rl ip of
                   None \<Rightarrow> None
                 | Some stamps \<Rightarrow>
                     (let valid = slideWindow cutoff stamps
                      in if length valid = 0 then None else Some valid))\<rparr>)"

text \<open>
  The loop of \<open>gc\<close> never ends; \<open>gcRun\<close> is its effect over the ticks that have fired so
  far, given by their times in order.
\<close>

fun gcRun :: "int list \<Rightarrow> rateLimiter \<Rightarrow> rateLimiter" where
  "gcRun [] rl = rl"
| "gcRun (tick # ticks) rl = gcRun ticks (gcTick tick rl)"

text \<open>
  A caller issuing requests from one origin at the given times, one after the other: the
  answers of \<open>allow\<close> in order, and the limiter afterwards.
\<close>

fun allowSeq :: "rateLimiter \<Rightarrow> string \<Rightarrow> int list \<Rightarrow> bool list \<times> rateLimiter" where
  "allowSeq rl ip [] = ([], rl)"
| "allowSeq rl ip (now # rest) =
     (case allow now ip rl of
        (ok, rl1) \<Rightarrow> (case allowSeq rl1 ip rest of (oks, rl2) \<Rightarrow> (ok # oks, rl2)))"

section \<open>Docker manager (internal/docker)\<close>

subsection \<open>Engine and model types\<close>

text \<open>
  \<open>uint64\<close> is a 64-bit word. A \<open>float64\<close> is carried as its IEEE-754 bit pattern, whose
  all-zero pattern is the Go zero value \<open>0.0\<close>; no floating-point arithmetic is modelled.
\<close>

type_synonym uint64 = "64 word"
type_synonym float64 = "64 word"

text \<open>Engine types (\<open>container.Port\<close>, \<open>container.Summary\<close>), the fields the code reads.\<close>

record EnginePort =
  ep_IP :: string
  ep_PrivatePort :: "16 word"
  ep_PublicPort :: "16 word"
  ep_Type :: string

record Summary =
  sm_ID :: string
  sm_Names :: "string list"
  sm_Image :: string
  sm_Status :: string
  sm_State :: string
  sm_Ports :: "EnginePort list"
  sm_Created :: int
  sm_Labels :: "string \<rightharpoonup> string"

text \<open>Package \<open>models\<close>.\<close>

record Port =
  pt_IP :: string
  pt_Host :: int
  pt_Container :: int
  pt_Protocol :: string

record Container =
  ct_ID :: string
  ct_FullID :: string
  ct_Name :: string
  ct_Image :: string
  ct_Status :: string
  ct_State :: string
  ct_CPU :: float64
  ct_Memory :: uint64
  ct_MemoryLimit :: uint64
  ct_Ports :: "Port list"
  ct_Created :: int
  ct_Compose :: string

record ComposeService =
  svc_Name :: string
  svc_ContainerID :: string
  svc_Status :: string
  svc_State :: string
  svc_Running :: bool

record ComposeStack =
  stack_Name :: string
  stack_Path :: string
  stack_Status :: string
  stack_Services :: "ComposeService list"

record WSMessage =
  ws_Type :: string
  ws_Containers :: "Container list"
  ws_Composes :: "ComposeStack list"
  ws_Timestamp :: int

text \<open>\<open>container.StatsResponse\<close>, the fields read by the two calculations.\<close>

record CPUUsage =
  TotalUsage :: uint64
  PercpuUsage :: "uint64 list"

record CPUStats =
  cpu_CPUUsage :: CPUUsage
  SystemUsage :: uint64
  OnlineCPUs :: "32 word"

record MemoryStats =
  Usage :: uint64
  Limit :: uint64
  Stats :: "string \<rightharpoonup> uint64"

record StatsResponse =
  st_CPUStats :: CPUStats
  st_PreCPUStats :: CPUStats
  st_MemoryStats :: MemoryStats

text \<open>
  A Go error return is \<open>Err\<close>; a run-time panic (slice bounds out of range) is \<open>Panic\<close>.
\<close>

datatype failure = Err string | Panic

text \<open>\<open>s[:12]\<close> on a Go string: the first 12 bytes, and a panic when the string is shorter.\<close>

definition slice12 :: "string \<Rightarrow> failure + string" where
  "slice12 s = (if 12 \<le> length s then Inr (take 12 s) else Inl Panic)"

text \<open>Reading a \<open>map[string]string\<close>: the empty string for a missing key.\<close>

definition label :: "Summary \<Rightarrow> string \<Rightarrow> string" where
  "label c k = (case sm_Labels c k of None \<Rightarrow> [] | Some v \<Rightarrow> v)"

subsection \<open>Stats aggregation (GetContainers, fetchStats, calcMemory)\<close>

text \<open>
  The engine side of \<open>fetchStats\<close>: \<open>cli.ContainerStats\<close> fails (also on a deadline), or
  the body cannot be read, or the body is read. \<open>json.Unmarshal\<close> belongs to the standard
  library. \<open>calcCPUPercent\<close> computes in \<open>float64\<close>; its result is taken as given.
\<close>

datatype stats_reply = StatsError | BodyError | Body string

record engine =
  ContainerStats :: "string \<Rightarrow> stats_reply"
  unmarshalStats :: "string \<Rightarrow> StatsResponse option"
  calcCPUPercent :: "StatsResponse \<Rightarrow> float64"

definition calcMemory :: "StatsResponse \<Rightarrow> uint64 \<times> uint64" where
  "calcMemory stats =
     (let cache = (case Stats (st_MemoryStats stats) ''cache'' of None \<Rightarrow> 0 | Some v \<Rightarrow> v);
          used = (if cache < Usage (st_MemoryStats stats)
                  then Usage (st_MemoryStats stats) - cache else 0)
      in (used, Limit (st_MemoryStats stats)))"

definition fetchStats :: "engine \<Rightarrow> string \<Rightarrow> float64 \<times> uint64 \<times> uint64" where
  "fetchStats eng id' =
     (case ContainerStats eng id' of
        StatsError \<Rightarrow> (0, 0, 0)
      | BodyError \<Rightarrow> (0, 0, 0)
      | Body body \<Rightarrow>
          (case unmarshalStats eng body of
             None \<Rightarrow> (0, 0, 0)
           | Some stats \<Rightarrow> (calcCPUPercent eng stats, calcMemory stats)))"

record containerStats =
  cs_id :: string
  cs_cpu :: float64
  cs_mem :: uint64
  cs_memLim :: uint64

text \<open>
  The body of the goroutine started per container: the message it sends on \<open>statsChan\<close>,
  and the identifiers for which it called the engine's stats endpoint.
\<close>

definition statsWorker :: "engine \<Rightarrow> string \<Rightarrow> bool \<Rightarrow> containerStats \<times> string list" where
  "statsWorker eng id' running =
     (if \<not> running
      then (\<lparr>cs_id = id', cs_cpu = 0, cs_mem = 0, cs_memLim = 0\<rparr>, [])
      else (case fetchStats eng id' of
              (cpu, mem, lim) \<Rightarrow>
                (\<lparr>cs_id = id', cs_cpu = cpu, cs_mem = mem, cs_memLim = lim\<rparr>, [id'])))"

definition sentStats :: "engine \<Rightarrow> Summary list \<Rightarrow> containerStats list" where
  "sentStats eng lst = map (\<lambda>c. fst (statsWorker eng (sm_ID c) (sm_State c = ''running''))) lst"

definition statsCalls :: "engine \<Rightarrow> Summary list \<Rightarrow> string list" where
  "statsCalls eng lst =
     concat (map (\<lambda>c. snd (statsWorker eng (sm_ID c) (sm_State c = ''running''))) lst)"

text \<open>The receiving loop: \<open>statsMap[s.id] = s\<close> for each message in the order received.\<close>

definition collectStats :: "containerStats list \<Rightarrow> (string \<rightharpoonup> containerStats)" where
  "collectStats received = fold (\<lambda>s m. m(cs_id s \<mapsto> s)) received Map.empty"

definition statsLookup :: "(string \<rightharpoonup> containerStats) \<Rightarrow> string \<Rightarrow> containerStats" where
  "statsLookup statsMap k =
     (case statsMap k of
        None \<Rightarrow> \<lparr>cs_id = [], cs_cpu = 0, cs_mem = 0, cs_memLim = 0\<rparr>
      | Some s \<Rightarrow> s)"

definition containerName :: "Summary \<Rightarrow> string" where
  "containerName c = (case sm_Names c of [] \<Rightarrow> ''unknown'' | n # _ \<Rightarrow> TrimPrefix n ''/'')"

definition toPorts :: "EnginePort list \<Rightarrow> Port list" where
  "toPorts ps =
     map (\<lambda>p. \<lparr>pt_IP = ep_IP p, pt_Host = uint (ep_PublicPort p),
               pt_Container = uint (ep_PrivatePort p), pt_Protocol = ep_Type p\<rparr>) ps"

text \<open>The second loop over \<open>list\<close>, appending one \<open>models.Container\<close> per entry.\<close>

fun resultLoop :: "(string \<rightharpoonup> containerStats) \<Rightarrow> Summary list \<Rightarrow> failure + Container list" where
  "resultLoop statsMap [] = Inr []"
| "resultLoop statsMap (c # cs) =
     (case slice12 (sm_ID c) of
        Inl e \<Rightarrow> Inl e
      | Inr short \<Rightarrow>
          (case resultLoop statsMap cs of
             Inl e \<Rightarrow> Inl e
           | Inr rest \<Rightarrow>
               Inr (\<lparr>ct_ID = short, ct_FullID = sm_ID c, ct_Name = containerName c,
                     ct_Image = sm_Image c, ct_Status = sm_Status c, ct_State = sm_State c,
                     ct_CPU = cs_cpu (statsLookup statsMap (sm_ID c)),
                     ct_Memory = cs_mem (statsLookup statsMap (sm_ID c)),
                     ct_MemoryLimit = cs_memLim (statsLookup statsMap (sm_ID c)),
                     ct_Ports = toPorts (sm_Ports c), ct_Created = sm_Created c,
                     ct_Compose = label c ''com.docker.compose.project''\<rparr> # rest)))"

text \<open>
  \<open>GetContainers\<close>. \<open>listed\<close> is the answer of \<open>cli.ContainerList\<close>. The goroutines run
  concurrently and the channel holds all their messages, so the receiving loop sees every
  message exactly once, in an order the scheduler picks: \<open>arrival\<close> lists the positions of
  the senders in the order their messages are received (a permutation of
  \<open>[0..<length list]\<close>).
\<close>

definition GetContainers ::
  "engine \<Rightarrow> nat list \<Rightarrow> string + Summary list \<Rightarrow> failure + Container list" where
  "GetContainers eng arrival listed =
     (case listed of
        Inl e \<Rightarrow> Inl (Err e)
      | Inr lst \<Rightarrow>
          (let statsMap = collectStats (map (\<lambda>i. sentStats eng lst ! i) arrival)
           in resultLoop statsMap lst))"

subsection \<open>Stack reconciliation (GetComposeStacks, buildStack)\<close>

text \<open>
  \<open>composeFile\<close>: the \<open>Services\<close> map is only ranged over for its keys, so it is
  represented by its keys in the order the range statement yields them. The file system,
  the YAML decoder and the two \<open>filepath\<close> functions are the host's.
\<close>

record composeFile =
  cf_Name :: string
  cf_Services :: "string list"

record ComposeConfig =
  cc_Name :: string
  cc_Path :: string

record host =
  os_ReadFile :: "string \<Rightarrow> string option"
  yaml_Unmarshal :: "string \<Rightarrow> composeFile option"
  filepath_Join :: "string \<Rightarrow> string \<Rightarrow> string"
  filepath_Base :: "string \<Rightarrow> string"

fun probe :: "host \<Rightarrow> string list \<Rightarrow> composeFile option" where
  "probe h [] = None"
| "probe h (p # ps) =
     (case os_ReadFile h p of
        None \<Rightarrow> probe h ps
      | Some data \<Rightarrow> (case yaml_Unmarshal h data of Some cf \<Rightarrow> Some cf | None \<Rightarrow> probe h ps))"

definition readComposeFile :: "host \<Rightarrow> string \<Rightarrow> composeFile option" where
  "readComposeFile h dir =
     probe h [filepath_Join h dir ''docker-compose.yml'', filepath_Join h dir ''docker-compose.yaml'',
              filepath_Join h dir ''compose.yml'', filepath_Join h dir ''compose.yaml'']"

definition resolveProjectName :: "host \<Rightarrow> string \<Rightarrow> string" where
  "resolveProjectName h path =
     (case readComposeFile h path of
        Some cf \<Rightarrow> if cf_Name cf \<noteq> [] then cf_Name cf else filepath_Base h path
      | None \<Rightarrow> filepath_Base h path)"

definition parseServiceNames :: "host \<Rightarrow> string \<Rightarrow> string list" where
  "parseServiceNames h path =
     (case readComposeFile h path of None \<Rightarrow> [] | Some cf \<Rightarrow> cf_Services cf)"

text \<open>\<open>byProject\<close>: a missing key reads as the nil slice.\<close>

definition groupByProject :: "Summary list \<Rightarrow> (string \<Rightarrow> Summary list)" where
  "groupByProject allContainers =
     fold (\<lambda>c m. let proj = label c ''com.docker.compose.project''
                 in if proj \<noteq> [] then m(proj := m proj @ [c]) else m)
          allContainers (\<lambda>_. [])"

definition containerByService :: "Summary list \<Rightarrow> (string \<rightharpoonup> Summary)" where
  "containerByService dockerContainers =
     fold (\<lambda>c m. let svc = label c ''com.docker.compose.service''
                 in if svc \<noteq> [] then m(svc \<mapsto> c) else m)
          dockerContainers Map.empty"

text \<open>
  The loop over \<open>serviceNames\<close>, with its two loop variables \<open>running\<close> and \<open>services\<close>.
\<close>

fun serviceLoop ::
  "(string \<rightharpoonup> Summary) \<Rightarrow> string list \<Rightarrow> nat \<Rightarrow> ComposeService list
     \<Rightarrow> failure + (nat \<times> ComposeService list)" where
  "serviceLoop cbs [] running services = Inr (running, services)"
| "serviceLoop cbs (svcName # rest) running services =
     (case cbs svcName of
        None \<Rightarrow>
          serviceLoop cbs rest running
            (services @ [\<lparr>svc_Name = svcName, svc_ContainerID = [], svc_Status = ''not created'',
                           svc_State = ''stopped'', svc_Running = False\<rparr>])
      | Some c \<Rightarrow>
          (case slice12 (sm_ID c) of
             Inl e \<Rightarrow> Inl e
           | Inr short \<Rightarrow>
               serviceLoop cbs rest
                 (if sm_State c = ''running'' then running + 1 else running)
                 (services @ [\<lparr>svc_Name = svcName, svc_ContainerID = short,
                                svc_Status = sm_Status c, svc_State = sm_State c,
                                svc_Running = (sm_State c = ''running'')\<rparr>])))"

definition buildStack ::
  "host \<Rightarrow> ComposeConfig \<Rightarrow> (string \<Rightarrow> Summary list) \<Rightarrow> failure + ComposeStack" where
  "buildStack h cc byProject =
     (let projectName = resolveProjectName h (cc_Path cc);
          serviceNames = parseServiceNames h (cc_Path cc);
          dockerContainers = byProject projectName
      in case serviceLoop (containerByService dockerContainers) serviceNames 0 [] of
           Inl e \<Rightarrow> Inl e
         | Inr (running, services) \<Rightarrow>
             Inr \<lparr>stack_Name = cc_Name cc, stack_Path = cc_Path cc,
                  stack_Status =
                    (if 0 < running \<and> running = length serviceNames then ''running''
                     else if 0 < running then ''partial'' else ''stopped''),
                  stack_Services = services\<rparr>)"

fun stacksLoop ::
  "host \<Rightarrow> (string \<Rightarrow> Summary list) \<Rightarrow> ComposeConfig list \<Rightarrow> failure + ComposeStack list" where
  "stacksLoop h byProject [] = Inr []"
| "stacksLoop h byProject (cc # rest) =
     (case buildStack h cc byProject of
        Inl e \<Rightarrow> Inl e
      | Inr stack \<Rightarrow>
          (case stacksLoop h byProject rest of
             Inl e \<Rightarrow> Inl e
           | Inr stacks \<Rightarrow> Inr (stack # stacks)))"

definition GetComposeStacks ::
  "host \<Rightarrow> ComposeConfig list \<Rightarrow> string + Summary list \<Rightarrow> failure + ComposeStack list" where
  "GetComposeStacks h cfg_Composes listed =
     (case listed of
        Inl e \<Rightarrow> Inl (Err e)
      | Inr allContainers \<Rightarrow> stacksLoop h (groupByProject allContainers) cfg_Composes)"

subsection \<open>State broadcaster (internal/api, pushState)\<close>

text \<open>
  \<open>pushState\<close> returns nothing; what it does is one of: offer the marshalled message to the
  hub's broadcast channel (the non-blocking \<open>select\<close>), print a marshalling error and return,
  or die with the panic of a sub-fetch. \<open>listed1\<close> and \<open>listed2\<close> are the engine's answers
  to the container listings of the two sub-fetches; \<open>now\<close> is \<open>time.Now().Unix()\<close>.
\<close>

datatype push_effect = Offered string | MarshalError | Panicked

record server =
  srv_engine :: engine
  srv_host :: host
  srv_Composes :: "ComposeConfig list"
  json_Marshal :: "WSMessage \<Rightarrow> string option"

definition pushState ::
  "server \<Rightarrow> nat list \<Rightarrow> string + Summary list \<Rightarrow> string + Summary list \<Rightarrow> int \<Rightarrow> push_effect" where
  "pushState s arrival listed1 listed2 now =
     (case GetContainers (srv_engine s) arrival listed1 of
        Inl Panic \<Rightarrow> Panicked
      | r1 \<Rightarrow>
          (case GetComposeStacks (srv_host s) (srv_Composes s) listed2 of
             Inl Panic \<Rightarrow> Panicked
           | r2 \<Rightarrow>
               (let containers = (case r1 of Inr cs \<Rightarrow> cs | Inl _ \<Rightarrow> []);
                    composes = (case r2 of Inr ss \<Rightarrow> ss | Inl _ \<Rightarrow> []);
                    msg = \<lparr>ws_Type = ''state'', ws_Containers = containers,
                           ws_Composes = composes, ws_Timestamp = now\<rparr>
                in case json_Marshal s msg of
                     None \<Rightarrow> MarshalError
                   | Some data \<Rightarrow> Offered data)))"

section \<open>Vocabulary of the specification\<close>

text \<open>
  Predicates and functional descriptions used to state the properties. \<open>cbs\<close> is the map
  \<open>containerByService\<close> of a stack. A declared service is \<^emph>\<open>bound and running\<close> when the
  map holds a container for it whose state is \<open>running\<close>; it is bound to a container with a
  \<^emph>\<open>short identifier\<close> when that container's ID has fewer than 12 bytes.
\<close>

definition boundRunning :: "(string \<rightharpoonup> Summary) \<Rightarrow> string \<Rightarrow> bool" where
  "boundRunning cbs n = (case cbs n of None \<Rightarrow> False | Some c \<Rightarrow> sm_State c = ''running'')"

definition shortBound :: "(string \<rightharpoonup> Summary) \<Rightarrow> string \<Rightarrow> bool" where
  "shortBound cbs n = (case cbs n of None \<Rightarrow> False | Some c \<Rightarrow> length (sm_ID c) < 12)"

text \<open>The service entry and the container entry the loops append when no slice fails.\<close>

definition serviceOf :: "(string \<rightharpoonup> Summary) \<Rightarrow> string \<Rightarrow> ComposeService" where
  "serviceOf cbs n =
     (case cbs n of
        None \<Rightarrow> \<lparr>svc_Name = n, svc_ContainerID = [], svc_Status = ''not created'',
                  svc_State = ''stopped'', svc_Running = False\<rparr>
      | Some c \<Rightarrow> \<lparr>svc_Name = n, svc_ContainerID = take 12 (sm_ID c), svc_Status = sm_Status c,
                    svc_State = sm_State c, svc_Running = (sm_State c = ''running'')\<rparr>)"

definition containerOf :: "(string \<rightharpoonup> containerStats) \<Rightarrow> Summary \<Rightarrow> Container" where
  "containerOf statsMap c =
     \<lparr>ct_ID = take 12 (sm_ID c), ct_FullID = sm_ID c, ct_Name = containerName c,
      ct_Image = sm_Image c, ct_Status = sm_Status c, ct_State = sm_State c,
      ct_CPU = cs_cpu (statsLookup statsMap (sm_ID c)),
      ct_Memory = cs_mem (statsLookup statsMap (sm_ID c)),
      ct_MemoryLimit = cs_memLim (statsLookup statsMap (sm_ID c)),
      ct_Ports = toPorts (sm_Ports c), ct_Created = sm_Created c,
      ct_Compose = label c ''com.docker.compose.project''\<rparr>"

section \<open>Concrete inputs\<close>

text \<open>
  A host with one stack directory \<open>/srv/web\<close> whose declaration names the services \<open>app\<close>
  and \<open>db\<close>, a host with no readable declaration, and engine containers of project \<open>web\<close>.
\<close>

definition exHost :: host where
  "exHost =
     \<lparr>os_ReadFile = (\<lambda>p. if p = ''/srv/web/docker-compose.yml'' then Some ''services: app, db''
                          else None),
      yaml_Unmarshal = (\<lambda>d. if d = ''services: app, db''
                             then Some \<lparr>cf_Name = [], cf_Services = [''app'', ''db'']\<rparr> else None),
      filepath_Join = (\<lambda>dir f. dir @ ''/'' @ f),
      filepath_Base = (\<lambda>p. if p = ''/srv/web'' then ''web'' else p)\<rparr>"

definition exHostNoFile :: host where
  "exHostNoFile =
     \<lparr>os_ReadFile = (\<lambda>p. None), yaml_Unmarshal = (\<lambda>d. None),
      filepath_Join = (\<lambda>dir f. dir @ ''/'' @ f),
      filepath_Base = (\<lambda>p. if p = ''/srv/web'' then ''web'' else p)\<rparr>"

definition exStackWeb :: ComposeConfig where
  "exStackWeb = \<lparr>cc_Name = ''web'', cc_Path = ''/srv/web''\<rparr>"

definition exApp :: Summary where
  "exApp =
     \<lparr>sm_ID = ''0123456789abcdef0123'', sm_Names = [''/web-app-1''], sm_Image = ''nginx'',
      sm_Status = ''Up 2 hours'', sm_State = ''running'', sm_Ports = [], sm_Created = 1700000000,
      sm_Labels = [''com.docker.compose.project'' \<mapsto> ''web'',
                   ''com.docker.compose.service'' \<mapsto> ''app'']\<rparr>"

definition exStopped :: Summary where
  "exStopped =
     \<lparr>sm_ID = ''fedcba9876543210fedc'', sm_Names = [], sm_Image = ''redis'',
      sm_Status = ''Exited (0)'', sm_State = ''exited'', sm_Ports = [], sm_Created = 1700000001,
      sm_Labels = Map.empty\<rparr>"

definition exShort :: Summary where
  "exShort =
     \<lparr>sm_ID = ''abc123'', sm_Names = [''/short''], sm_Image = ''busybox'',
      sm_Status = ''Up'', sm_State = ''running'', sm_Ports = [], sm_Created = 1700000002,
      sm_Labels = Map.empty\<rparr>"

text \<open>A stats sample whose page-cache figure exceeds the usage figure.\<close>

definition exStatsCacheLarger :: StatsResponse where
  "exStatsCacheLarger =
     \<lparr>st_CPUStats = \<lparr>cpu_CPUUsage = \<lparr>TotalUsage = 200, PercpuUsage = []\<rparr>,
                     SystemUsage = 2000, OnlineCPUs = 2\<rparr>,
      st_PreCPUStats = \<lparr>cpu_CPUUsage = \<lparr>TotalUsage = 100, PercpuUsage = []\<rparr>,
                        SystemUsage = 1000, OnlineCPUs = 2\<rparr>,
      st_MemoryStats = \<lparr>Usage = 4096, Limit = 1048576, Stats = [''cache'' \<mapsto> 8192]\<rparr>\<rparr>"

text \<open>
  An engine that answers the stats call of \<open>exApp\<close> with a body decoding to the sample
  above, fails every other stats call, and whose CPU computation gives 12.5 (as bits).
\<close>

definition exEngine :: engine where
  "exEngine =
     \<lparr>ContainerStats = (\<lambda>k. if k = ''0123456789abcdef0123'' then Body ''stats'' else StatsError),
      unmarshalStats = (\<lambda>b. if b = ''stats'' then Some exStatsCacheLarger else None),
      calcCPUPercent = (\<lambda>stats. 0x4029000000000000)\<rparr>"

text \<open>
  A running container whose stats call fails on \<open>exEngine\<close>, a server over the engine and
  host above whose encoder only tells empty halves from non-empty ones, and six request
  times ten seconds apart.
\<close>

definition exFailing :: Summary where
  "exFailing =
     \<lparr>sm_ID = ''aaaaaaaaaaaaaaaaaaaa'', sm_Names = [''/flaky''], sm_Image = ''postgres'',
      sm_Status = ''Up 1 minute'', sm_State = ''running'', sm_Ports = [], sm_Created = 1700000003,
      sm_Labels = Map.empty\<rparr>"

definition exServer :: server where
  "exServer =
     \<lparr>srv_engine = exEngine, srv_host = exHost, srv_Composes = [exStackWeb],
      json_Marshal =
        (\<lambda>msg. Some (ws_Type msg @
                      (if ws_Containers msg = [] then '' containers=[]'' else '' containers=[...]'') @
                      (if ws_Composes msg = [] then '' composes=[]'' else '' composes=[...]'')))\<rparr>"

definition exBurst :: "int list" where
  "exBurst = [0, 10000000000, 20000000000, 30000000000, 40000000000, 50000000000]"

text \<open>
  Settings in which the administrator has switched every public feature off, a JSON library
  that writes them as the document \<open>saved\<close> and reads that document back, and a token
  validator that accepts the one token \<open>tok\<close>.
\<close>

definition exRunning :: Settings where
  "exRunning =
     \<lparr>AuthlessMode = True, RemoveVolumesOnStop = False,
      AdminFeatures = adminDefaults, PublicFeatures = publicDefaults\<rparr>"

definition exDisabledPublic :: Settings where
  "exDisabledPublic =
     \<lparr>AuthlessMode = True, RemoveVolumesOnStop = False,
      AdminFeatures = adminDefaults, PublicFeatures = zeroFeatureSet\<rparr>"

definition exPatch :: settingsPatch where
  "exPatch =
     \<lparr>p_AuthlessMode = None, p_RemoveVolumesOnStop = None, p_AdminFeatures = None,
      p_PublicFeatures = Some zeroFeatureSet\<rparr>"

definition exJson :: json_lib where
  "exJson =
     \<lparr>unmarshalSettings = (\<lambda>d cur. if d = ''saved'' then (exDisabledPublic, False) else (cur, True)),
      unmarshalOld = (\<lambda>d. None),
      marshalSettings = (\<lambda>st. Some ''saved'')\<rparr>"

definition exValidate :: "string \<Rightarrow> string option" where
  "exValidate t = (if t = ''tok'' then None else Some ''invalid token'')"

section \<open>Theorems\<close>

subsection \<open>Shared lemmas\<close>

lemma serviceLoop_eq:
  "serviceLoop cbs names r sv =
     (if \<exists>n \<in> set names. shortBound cbs n then Inl Panic
      else Inr (r + length (filter (boundRunning cbs) names), sv @ map (serviceOf cbs) names))"
proof (induction names arbitrary: r sv)
  case Nil
  then show ?case by simp
next
  case (Cons n names)
  show ?case
  proof (cases "cbs n")
    case None
    then have "\<not> shortBound cbs n" "\<not> boundRunning cbs n"
      "serviceOf cbs n = \<lparr>svc_Name = n, svc_ContainerID = [], svc_Status = ''not created'',
         svc_State = ''stopped'', svc_Running = False\<rparr>"
      by (simp_all add: shortBound_def boundRunning_def serviceOf_def)
    with None show ?thesis
      by (simp add: Cons.IH)
  next
    case (Some c)
    then have "shortBound cbs n = (length (sm_ID c) < 12)"
      "boundRunning cbs n = (sm_State c = ''running'')"
      "serviceOf cbs n = \<lparr>svc_Name = n, svc_ContainerID = take 12 (sm_ID c),
         svc_Status = sm_Status c, svc_State = sm_State c,
         svc_Running = (sm_State c = ''running'')\<rparr>"
      by (simp_all add: shortBound_def boundRunning_def serviceOf_def)
    with Some show ?thesis
      by (simp add: Cons.IH slice12_def)
  qed
qed

lemma filter_all_iff: "length (filter P xs) = length xs \<longleftrightarrow> (\<forall>x \<in> set xs. P x)"
proof (induction xs)
  case Nil
  show ?case by simp
next
  case (Cons x xs)
  have "length (filter P xs) \<le> length xs" by simp
  then have "length (filter P xs) \<noteq> Suc (length xs)" by arith
  with Cons show ?case by auto
qed

lemma filter_none_iff: "length (filter P xs) = 0 \<longleftrightarrow> (\<forall>x \<in> set xs. \<not> P x)"
  by (simp add: filter_empty_conv)

lemma buildStack_eq:
  "buildStack h cc byProject =
     (let names = parseServiceNames h (cc_Path cc);
          cbs = containerByService (byProject (resolveProjectName h (cc_Path cc)));
          k = length (filter (boundRunning cbs) names)
      in if \<exists>n \<in> set names. shortBound cbs n then Inl Panic
         else Inr \<lparr>stack_Name = cc_Name cc, stack_Path = cc_Path cc,
                  stack_Status = (if 0 < k \<and> k = length names then ''running''
                                  else if 0 < k then ''partial'' else ''stopped''),
                  stack_Services = map (serviceOf cbs) names\<rparr>)"
  by (simp add: buildStack_def serviceLoop_eq Let_def)

lemma resultLoop_eq:
  "resultLoop m lst =
     (if \<exists>c \<in> set lst. length (sm_ID c) < 12 then Inl Panic
      else Inr (map (containerOf m) lst))"
  by (induction lst) (auto simp: slice12_def containerOf_def)

lemma containerByService_fold_mem:
  "fold (\<lambda>c m. let svc = label c ''com.docker.compose.service''
                 in if svc \<noteq> [] then m(svc \<mapsto> c) else m) cs m0 n = Some c
   \<Longrightarrow> c \<in> set cs \<or> m0 n = Some c"
proof (induction cs arbitrary: m0)
  case Nil
  then show ?case by simp
next
  case (Cons a cs)
  from Cons.IH[OF Cons.prems[simplified]] show ?case
    by (auto simp: Let_def split: if_splits)
qed

lemma containerByService_mem: "containerByService cs n = Some c \<Longrightarrow> c \<in> set cs"
  unfolding containerByService_def by (drule containerByService_fold_mem) simp

lemma groupByProject_fold_mem:
  "c \<in> set (fold (\<lambda>c m. let proj = label c ''com.docker.compose.project''
                 in if proj \<noteq> [] then m(proj := m proj @ [c]) else m) lst m0 p)
   \<Longrightarrow> c \<in> set lst \<or> c \<in> set (m0 p)"
proof (induction lst arbitrary: m0)
  case Nil
  then show ?case by simp
next
  case (Cons a lst)
  from Cons.IH[OF Cons.prems[simplified]] show ?case
    by (auto simp: Let_def split: if_splits)
qed

lemma groupByProject_mem: "c \<in> set (groupByProject lst p) \<Longrightarrow> c \<in> set lst"
  unfolding groupByProject_def by (drule groupByProject_fold_mem) simp

lemma buildStack_no_panic:
  assumes "\<forall>c \<in> set lst. 12 \<le> length (sm_ID c)"
  shows "\<exists>st. buildStack h cc (groupByProject lst) = Inr st"
proof -
  have "\<not> shortBound (containerByService (groupByProject lst p)) n" for p n
  proof (cases "containerByService (groupByProject lst p) n")
    case None
    then show ?thesis by (simp add: shortBound_def)
  next
    case (Some c)
    then have "c \<in> set lst"
      using containerByService_mem groupByProject_mem by blast
    with assms Some show ?thesis by (auto simp: shortBound_def)
  qed
  then show ?thesis by (simp add: buildStack_eq Let_def)
qed

lemma stacksLoop_total:
  assumes "\<forall>cc \<in> set ccs. \<exists>st. buildStack h cc bp = Inr st"
  shows "\<exists>sts. stacksLoop h bp ccs = Inr sts \<and> length sts = length ccs"
  using assms by (induction ccs) auto

text \<open>Evaluation of the concrete inputs.\<close>

lemma exHost_names: "parseServiceNames exHost ''/srv/web'' = [''app'', ''db'']"
  by (simp add: parseServiceNames_def readComposeFile_def exHost_def)

lemma exHost_project: "resolveProjectName exHost ''/srv/web'' = ''web''"
  by (simp add: resolveProjectName_def readComposeFile_def exHost_def)

lemma exHostNoFile_names: "parseServiceNames exHostNoFile ''/srv/web'' = []"
  by (simp add: parseServiceNames_def readComposeFile_def exHostNoFile_def)

lemma exHostNoFile_project: "resolveProjectName exHostNoFile ''/srv/web'' = ''web''"
  by (simp add: resolveProjectName_def readComposeFile_def exHostNoFile_def)

lemma exApp_grouped: "groupByProject [exApp] ''web'' = [exApp]"
  by (simp add: groupByProject_def label_def exApp_def Let_def)

lemma exApp_byService:
  "containerByService [exApp] ''app'' = Some exApp" "containerByService [exApp] ''db'' = None"
  by (simp_all add: containerByService_def label_def exApp_def Let_def)

lemma exApp_facts: "sm_State exApp = ''running''" "length (sm_ID exApp) = 20"
  "sm_Status exApp = ''Up 2 hours''" "take 12 (sm_ID exApp) = ''0123456789ab''"
  by (simp_all add: exApp_def)

lemma exWeb_snapshot:
  "buildStack exHost exStackWeb (groupByProject [exApp]) =
     Inr \<lparr>stack_Name = ''web'', stack_Path = ''/srv/web'', stack_Status = ''partial'',
          stack_Services =
            [\<lparr>svc_Name = ''app'', svc_ContainerID = ''0123456789ab'', svc_Status = ''Up 2 hours'',
              svc_State = ''running'', svc_Running = True\<rparr>,
             \<lparr>svc_Name = ''db'', svc_ContainerID = [], svc_Status = ''not created'',
              svc_State = ''stopped'', svc_Running = False\<rparr>]\<rparr>"
  by (simp add: buildStack_eq Let_def exStackWeb_def exHost_names exHost_project exApp_grouped
      exApp_byService shortBound_def boundRunning_def serviceOf_def exApp_facts)

subsection \<open>Auth middleware\<close>

text \<open>
  C1. For every request the middleware resolves the level as: admin when a valid session
  token is presented; otherwise public when authentication is not required (auth disabled in
  the configuration, or authless mode on); otherwise the request is rejected as
  unauthenticated. A valid token gives admin whatever the authless setting is.
\<close>

theorem authMiddleware_level:
  "authMiddleware en st V h =
     (if isValidToken V h then Next authLevelAdmin
      else if \<not> en then Next authLevelPublic
      else if AuthlessMode st then Next authLevelPublic
      else Unauthorized)"
  by (simp add: authMiddleware_def)

theorem authMiddleware_level_witness:
  "authMiddleware True exRunning exValidate ''Bearer tok'' = Next authLevelAdmin \<and>
   authMiddleware True exRunning exValidate ''Bearer bad'' = Next authLevelPublic \<and>
   authMiddleware False (exRunning\<lparr>AuthlessMode := False\<rparr>) exValidate [] = Next authLevelPublic \<and>
   authMiddleware True (exRunning\<lparr>AuthlessMode := False\<rparr>) exValidate ''Bearer bad'' = Unauthorized \<and>
   authMiddleware True (exRunning\<lparr>AuthlessMode := False\<rparr>) exValidate ''Bearer tok'' = Next authLevelAdmin"
  using authMiddleware_level [of True exRunning exValidate "''Bearer tok''"]
    authMiddleware_level [of True exRunning exValidate "''Bearer bad''"]
    authMiddleware_level [of False "exRunning\<lparr>AuthlessMode := False\<rparr>" exValidate "[]"]
    authMiddleware_level [of True "exRunning\<lparr>AuthlessMode := False\<rparr>" exValidate "''Bearer bad''"]
    authMiddleware_level [of True "exRunning\<lparr>AuthlessMode := False\<rparr>" exValidate "''Bearer tok''"]
  by (simp add: isValidToken_def bearerToken_def HasPrefix_def TrimPrefix_def exValidate_def
      exRunning_def)

subsection \<open>Stack reconciliation\<close>

text \<open>
  C2, as the code has it. Whenever \<open>buildStack\<close> yields a snapshot, its status is
  \<open>running\<close> exactly when there is at least one declared service and every declared service
  is bound and running, \<open>stopped\<close> exactly when no declared service is bound and running
  (in particular when none is declared), and \<open>partial\<close> exactly when some declared service
  is bound and running and some is not. A snapshot is yielded whenever no declared service
  is bound to a container with a short identifier.
\<close>

theorem buildStack_status:
  fixes h cc byProject
  defines "names \<equiv> parseServiceNames h (cc_Path cc)"
      and "cbs \<equiv> containerByService (byProject (resolveProjectName h (cc_Path cc)))"
  shows "(\<forall>st. buildStack h cc byProject = Inr st \<longrightarrow>
            (stack_Status st = ''running'' \<longleftrightarrow> names \<noteq> [] \<and> (\<forall>n \<in> set names. boundRunning cbs n)) \<and>
            (stack_Status st = ''stopped'' \<longleftrightarrow> (\<forall>n \<in> set names. \<not> boundRunning cbs n)) \<and>
            (stack_Status st = ''partial'' \<longleftrightarrow>
               (\<exists>n \<in> set names. boundRunning cbs n) \<and> (\<exists>n \<in> set names. \<not> boundRunning cbs n))) \<and>
         ((\<forall>n \<in> set names. \<not> shortBound cbs n) \<longrightarrow> (\<exists>st. buildStack h cc byProject = Inr st))"
proof -
  let ?k = "length (filter (boundRunning cbs) names)"
  have k0: "?k = 0 \<longleftrightarrow> (\<forall>n \<in> set names. \<not> boundRunning cbs n)"
    by (rule filter_none_iff)
  have kn: "?k = length names \<longleftrightarrow> (\<forall>n \<in> set names. boundRunning cbs n)"
    by (rule filter_all_iff)
  have ne: "names \<noteq> [] \<and> (\<forall>n \<in> set names. boundRunning cbs n) \<longleftrightarrow> 0 < ?k \<and> ?k = length names"
    using kn by auto
  show ?thesis
    unfolding buildStack_eq Let_def names_def[symmetric] cbs_def[symmetric]
    using k0 kn ne by (auto split: if_splits)
qed

text \<open>
  The scenario of the specification: stack \<open>web\<close> declares \<open>app\<close> and \<open>db\<close>, the engine
  reports only \<open>app\<close>, running, under project \<open>web\<close>; the status is \<open>partial\<close>.
\<close>

theorem buildStack_status_witness:
  "\<not> shortBound (containerByService (groupByProject [exApp] ''web'')) ''app'' \<and>
   \<not> shortBound (containerByService (groupByProject [exApp] ''web'')) ''db'' \<and>
   boundRunning (containerByService (groupByProject [exApp] ''web'')) ''app'' \<and>
   \<not> boundRunning (containerByService (groupByProject [exApp] ''web'')) ''db'' \<and>
   (\<exists>st. buildStack exHost exStackWeb (groupByProject [exApp]) = Inr st \<and>
         stack_Status st = ''partial'')"
  using buildStack_status [of exHost exStackWeb "groupByProject [exApp]"]
  by (auto simp add: exStackWeb_def exHost_names exHost_project exApp_grouped exApp_byService
      exApp_facts shortBound_def boundRunning_def)

text \<open>
  The claim as stated fails for a stack with no declared service (here: no declaration file
  can be read): every declared service is then bound and running, there being none, yet the
  status is \<open>stopped\<close>, not \<open>running\<close>.
\<close>

theorem buildStack_status_counterexample:
  "list_all (boundRunning (containerByService (groupByProject [] ''web'')))
     (parseServiceNames exHostNoFile (cc_Path exStackWeb)) \<and>
   buildStack exHostNoFile exStackWeb (groupByProject []) =
     Inr \<lparr>stack_Name = ''web'', stack_Path = ''/srv/web'', stack_Status = ''stopped'',
          stack_Services = []\<rparr>"
  by (simp add: buildStack_def exStackWeb_def exHostNoFile_names exHostNoFile_project)

text \<open>
  C7. Whenever \<open>buildStack\<close> yields a snapshot, its service list has one entry per declared
  service, in the declared order and under the declared names, and every declared service
  without a live counterpart is present as \<open>not created\<close>, state \<open>stopped\<close>, not running.
  A snapshot is yielded whenever no declared service is bound to a container with a short
  identifier.
\<close>

theorem buildStack_service_count:
  fixes h cc byProject
  defines "names \<equiv> parseServiceNames h (cc_Path cc)"
      and "cbs \<equiv> containerByService (byProject (resolveProjectName h (cc_Path cc)))"
  shows "(\<forall>st. buildStack h cc byProject = Inr st \<longrightarrow>
            length (stack_Services st) = length names \<and>
            map svc_Name (stack_Services st) = names \<and>
            (\<forall>i < length names. cbs (names ! i) = None \<longrightarrow>
               stack_Services st ! i =
                 \<lparr>svc_Name = names ! i, svc_ContainerID = [], svc_Status = ''not created'',
                  svc_State = ''stopped'', svc_Running = False\<rparr>)) \<and>
         ((\<forall>n \<in> set names. \<not> shortBound cbs n) \<longrightarrow> (\<exists>st. buildStack h cc byProject = Inr st))"
proof -
  have nm: "svc_Name (serviceOf cbs n) = n" for n
    by (simp add: serviceOf_def split: option.split)
  have "map (svc_Name \<circ> serviceOf cbs) names = names"
    by (simp add: nm map_idI)
  moreover have "serviceOf cbs n = \<lparr>svc_Name = n, svc_ContainerID = [], svc_Status = ''not created'',
                  svc_State = ''stopped'', svc_Running = False\<rparr>" if "cbs n = None" for n
    using that by (simp add: serviceOf_def)
  ultimately show ?thesis
    unfolding buildStack_eq Let_def names_def[symmetric] cbs_def[symmetric]
    by (auto split: if_splits)
qed

theorem buildStack_service_count_witness:
  "\<not> shortBound (containerByService (groupByProject [exApp] ''web'')) ''app'' \<and>
   \<not> shortBound (containerByService (groupByProject [exApp] ''web'')) ''db'' \<and>
   containerByService (groupByProject [exApp] ''web'') ''db'' = None \<and>
   (\<exists>st. buildStack exHost exStackWeb (groupByProject [exApp]) = Inr st \<and>
         length (stack_Services st) = 2 \<and>
         stack_Services st ! 1 =
           \<lparr>svc_Name = ''db'', svc_ContainerID = [], svc_Status = ''not created'',
            svc_State = ''stopped'', svc_Running = False\<rparr>)"
proof -
  have one: "(1::nat) < 2" by simp
  show ?thesis
    using buildStack_service_count [of exHost exStackWeb "groupByProject [exApp]"] one
    by (auto simp add: exStackWeb_def exHost_names exHost_project exApp_grouped exApp_byService
        exApp_facts shortBound_def)
qed

text \<open>
  C10. Both paths cut the engine's container ID with \<open>c.ID[:12]\<close>. The slice panics exactly
  for an ID shorter than 12 bytes; \<open>GetContainers\<close> panics exactly when the listing holds
  such a container and \<open>buildStack\<close> exactly when a declared service is bound to one. When
  every listed ID has at least 12 bytes, both the container list and the stack list are
  produced.
\<close>

theorem slice12_safety:
  fixes h cc byProject
  defines "names \<equiv> parseServiceNames h (cc_Path cc)"
      and "cbs \<equiv> containerByService (byProject (resolveProjectName h (cc_Path cc)))"
  shows "(slice12 s = Inl Panic \<longleftrightarrow> length s < 12) \<and>
         (GetContainers eng arrival (Inr lst) = Inl Panic \<longleftrightarrow> (\<exists>c \<in> set lst. length (sm_ID c) < 12)) \<and>
         (buildStack h cc byProject = Inl Panic \<longleftrightarrow> (\<exists>n \<in> set names. shortBound cbs n)) \<and>
         ((\<forall>c \<in> set lst. 12 \<le> length (sm_ID c)) \<longrightarrow>
            (\<exists>cs. GetContainers eng arrival (Inr lst) = Inr cs) \<and>
            (\<exists>sts. GetComposeStacks h ccs (Inr lst) = Inr sts))"
proof -
  have a: "slice12 s = Inl Panic \<longleftrightarrow> length s < 12"
    by (simp add: slice12_def)
  have b: "GetContainers eng arrival (Inr lst) = Inl Panic \<longleftrightarrow> (\<exists>c \<in> set lst. length (sm_ID c) < 12)"
    by (simp add: GetContainers_def resultLoop_eq)
  have c: "buildStack h cc byProject = Inl Panic \<longleftrightarrow> (\<exists>n \<in> set names. shortBound cbs n)"
    by (simp add: buildStack_eq Let_def names_def cbs_def)
  have d: "(\<exists>cs. GetContainers eng arrival (Inr lst) = Inr cs) \<and>
           (\<exists>sts. GetComposeStacks h ccs (Inr lst) = Inr sts)"
    if ok: "\<forall>c \<in> set lst. 12 \<le> length (sm_ID c)"
  proof
    from ok have "\<not> (\<exists>c \<in> set lst. length (sm_ID c) < 12)" by auto
    then show "\<exists>cs. GetContainers eng arrival (Inr lst) = Inr cs"
      by (simp add: GetContainers_def resultLoop_eq)
    have "\<forall>cc \<in> set ccs. \<exists>st. buildStack h cc (groupByProject lst) = Inr st"
      using buildStack_no_panic[OF ok] by blast
    from stacksLoop_total[OF this] show "\<exists>sts. GetComposeStacks h ccs (Inr lst) = Inr sts"
      by (auto simp: GetComposeStacks_def)
  qed
  from a b c d show ?thesis by blast
qed

theorem slice12_safety_witness:
  "slice12 ''abc123'' = Inl Panic \<and>
   GetContainers exEngine [1, 0] (Inr [exApp, exShort]) = Inl Panic \<and>
   (\<exists>cs. GetContainers exEngine [1, 0] (Inr [exApp, exStopped]) = Inr cs) \<and>
   (\<exists>sts. GetComposeStacks exHost [exStackWeb] (Inr [exApp, exStopped]) = Inr sts)"
  using slice12_safety [of "''abc123''" exEngine "[1, 0]" "[exApp, exShort]" exHost exStackWeb
      "groupByProject [exApp, exShort]" "[exStackWeb]"]
    slice12_safety [of "''abc123''" exEngine "[1, 0]" "[exApp, exStopped]" exHost exStackWeb
      "groupByProject [exApp, exStopped]" "[exStackWeb]"]
  by (simp add: exApp_def exShort_def exStopped_def)

subsection \<open>Memory figures\<close>

text \<open>
  C3, as the code has it. The reported memory is the usage minus the page-cache figure,
  stopping at zero: it is the raw usage when the sample has no cache figure, usage minus cache
  when the cache figure is below the usage, and zero when the cache figure is equal to or
  larger than the usage. The subtraction never wraps. The limit is the engine's.
\<close>

theorem calcMemory_saturating:
  "(Stats (st_MemoryStats stats) ''cache'' = None \<longrightarrow>
      fst (calcMemory stats) = Usage (st_MemoryStats stats)) \<and>
   (\<forall>cache. Stats (st_MemoryStats stats) ''cache'' = Some cache \<longrightarrow>
      fst (calcMemory stats) =
        (if cache < Usage (st_MemoryStats stats) then Usage (st_MemoryStats stats) - cache else 0) \<and>
      unat (fst (calcMemory stats)) = unat (Usage (st_MemoryStats stats)) - unat cache) \<and>
   snd (calcMemory stats) = Limit (st_MemoryStats stats)"
proof -
  have sat: "unat (if c < u then u - c else 0) = unat u - unat c" for u c :: uint64
  proof (cases "c < u")
    case True
    then have "c \<le> u" by simp
    then show ?thesis using True by (simp add: unat_sub)
  next
    case False
    then have "unat u \<le> unat c" by (simp add: word_less_nat_alt)
    with False show ?thesis by simp
  qed
  show ?thesis
    using sat by (simp add: calcMemory_def Let_def word_gt_0)
qed

theorem calcMemory_saturating_witness:
  "Stats (st_MemoryStats exStatsCacheLarger) ''cache'' = Some 8192 \<and>
   calcMemory exStatsCacheLarger = (0, 1048576)"
  using calcMemory_saturating [of exStatsCacheLarger]
  by (simp add: exStatsCacheLarger_def prod_eq_iff)

text \<open>
  The claim as stated fails when the cache figure is larger than the usage: the code reports
  zero there, not the raw usage.
\<close>

theorem calcMemory_counterexample:
  "Stats (st_MemoryStats exStatsCacheLarger) ''cache'' = Some 8192 \<and>
   Usage (st_MemoryStats exStatsCacheLarger) = 4096 \<and>
   fst (calcMemory exStatsCacheLarger) = 0 \<and>
   fst (calcMemory exStatsCacheLarger) \<noteq> Usage (st_MemoryStats exStatsCacheLarger)"
  by (simp add: calcMemory_def exStatsCacheLarger_def)

subsection \<open>Settings defaults\<close>

lemma applyDefaults_nonzero:
  "\<not> isZeroFeatureSet (AdminFeatures (applyDefaults c)) \<and>
   \<not> isZeroFeatureSet (PublicFeatures (applyDefaults c))"
  by (simp add: applyDefaults_def Let_def isZeroFeatureSet_def adminDefaults_def publicDefaults_def)

lemma load_applyDefaults: "load js file cur = Inr st \<Longrightarrow> \<exists>c. st = applyDefaults c"
  by (auto simp: load_def Let_def split: read_result.splits prod.splits)

text \<open>
  C9. When the settings file decodes without error, starting the service yields the decoded
  settings except that a feature profile with every switch false is replaced by the built-in
  defaults: all switches for the admin profile, and for the public profile the two view
  switches of containers and composes. So a public profile saved with every switch off comes
  back with view access on. Whatever the file holds, no successful load leaves a profile with
  every switch false.
\<close>

theorem load_applies_defaults:
  assumes "unmarshalSettings js d zeroSettings = (persisted, False)"
  shows "\<exists>st. NewService js (Data d) = Inr st \<and>
           AuthlessMode st = AuthlessMode persisted \<and>
           RemoveVolumesOnStop st = RemoveVolumesOnStop persisted \<and>
           AdminFeatures st =
             (if isZeroFeatureSet (AdminFeatures persisted) then adminDefaults
              else AdminFeatures persisted) \<and>
           PublicFeatures st =
             (if isZeroFeatureSet (PublicFeatures persisted) then publicDefaults
              else PublicFeatures persisted) \<and>
           (isZeroFeatureSet (PublicFeatures persisted) \<longrightarrow>
              ctr_View (Containers (PublicFeatures st)) \<and> cmp_View (Composes (PublicFeatures st)) \<and>
              \<not> img_View (Images (PublicFeatures st))) \<and>
           (\<forall>file cur st'. load js file cur = Inr st' \<longrightarrow>
              \<not> isZeroFeatureSet (AdminFeatures st') \<and> \<not> isZeroFeatureSet (PublicFeatures st'))"
proof -
  have "\<forall>file cur st'. load js file cur = Inr st' \<longrightarrow>
          \<not> isZeroFeatureSet (AdminFeatures st') \<and> \<not> isZeroFeatureSet (PublicFeatures st')"
    using load_applyDefaults applyDefaults_nonzero by blast
  with assms show ?thesis
    by (simp add: NewService_def load_def applyDefaults_def Let_def publicDefaults_def)
qed

text \<open>
  The administrator switches every public feature off through the settings handler, the
  settings are saved, and the process restarts: the public profile is the default one again.
\<close>

theorem load_applies_defaults_witness:
  "Update exJson True (patchSettings exPatch) exRunning NotExist =
     (exDisabledPublic, Data ''saved'', None) \<and>
   unmarshalSettings exJson ''saved'' zeroSettings = (exDisabledPublic, False) \<and>
   isZeroFeatureSet (PublicFeatures exDisabledPublic) \<and>
   (\<exists>st. NewService exJson (Data ''saved'') = Inr st \<and>
         PublicFeatures st = publicDefaults \<and>
         ctr_View (Containers (PublicFeatures st)) \<and> cmp_View (Composes (PublicFeatures st)))"
proof -
  have dec: "unmarshalSettings exJson ''saved'' zeroSettings = (exDisabledPublic, False)"
    by (simp add: exJson_def)
  have zero: "isZeroFeatureSet (PublicFeatures exDisabledPublic)"
    by (simp add: exDisabledPublic_def isZeroFeatureSet_def zeroFeatureSet_def)
  have upd: "Update exJson True (patchSettings exPatch) exRunning NotExist =
     (exDisabledPublic, Data ''saved'', None)"
    by (simp add: Update_def save_def patchSettings_def exPatch_def exRunning_def
        exDisabledPublic_def exJson_def)
  from load_applies_defaults [OF dec] zero dec upd show ?thesis
    by auto
qed

subsection \<open>Rate limiter\<close>

lemma allow_result:
  "allow now ip rl =
     (length (slideWindow (now - rateLimitWindow) (bucketOf rl ip)) < rateLimitMax,
      rl\<lparr>buckets := (buckets rl)(ip \<mapsto>
            slideWindow (now - rateLimitWindow) (bucketOf rl ip) @
            (if length (slideWindow (now - rateLimitWindow) (bucketOf rl ip)) < rateLimitMax
             then [now] else []))\<rparr>)"
  by (simp add: allow_def Let_def not_le)

lemma bucketOf_allow:
  "bucketOf (snd (allow now ip rl)) ip =
     slideWindow (now - rateLimitWindow) (bucketOf rl ip) @
     (if fst (allow now ip rl) then [now] else [])"
  by (simp add: allow_result bucketOf_def)

lemma slideWindow_idem: "slideWindow c (slideWindow c xs) = slideWindow c xs"
  by (simp add: slideWindow_def)

lemma map_upt_shift: "map f [0..<Suc n] = f 0 # map (\<lambda>k. f (Suc k)) [0..<n]"
  by (simp add: map_upt_Suc del: upt_Suc)

lemma allowSeq_answers:
  assumes "\<forall>n \<in> set ts. slideWindow (n - rateLimitWindow) (bucketOf rl ip) = F"
      and "\<forall>t \<in> set ts. \<forall>n \<in> set ts. n - rateLimitWindow < t"
  shows "fst (allowSeq rl ip ts) = map (\<lambda>k. length F + k < rateLimitMax) [0..<length ts]"
  using assms
proof (induction ts arbitrary: rl F)
  case Nil
  then show ?case by simp
next
  case (Cons now rest)
  let ?rl1 = "snd (allow now ip rl)"
  have valid: "slideWindow (now - rateLimitWindow) (bucketOf rl ip) = F"
    using Cons.prems(1) by simp
  have win: "\<forall>t \<in> set rest. \<forall>n \<in> set rest. n - rateLimitWindow < t"
    using Cons.prems(2) by simp
  have ok: "fst (allow now ip rl) = (length F < rateLimitMax)"
    by (simp add: allow_result valid)
  have split: "fst (allowSeq rl ip (now # rest)) = fst (allow now ip rl) # fst (allowSeq ?rl1 ip rest)"
    by (simp split: prod.split)
  show ?case
  proof (cases "length F < rateLimitMax")
    case True
    have b1: "bucketOf ?rl1 ip = F @ [now]"
      using True by (simp add: bucketOf_allow ok valid)
    have "\<forall>n \<in> set rest. slideWindow (n - rateLimitWindow) (bucketOf ?rl1 ip) = F @ [now]"
    proof
      fix n assume n: "n \<in> set rest"
      then have "slideWindow (n - rateLimitWindow) (bucketOf rl ip) = F"
        using Cons.prems(1) by simp
      then have "slideWindow (n - rateLimitWindow) F = F"
        using slideWindow_idem[of "n - rateLimitWindow" "bucketOf rl ip"] by simp
      moreover have "n - rateLimitWindow < now"
        using Cons.prems(2) n by simp
      ultimately show "slideWindow (n - rateLimitWindow) (bucketOf ?rl1 ip) = F @ [now]"
        by (simp add: b1 slideWindow_def)
    qed
    from Cons.IH[OF this win]
    have "fst (allowSeq ?rl1 ip rest) = map (\<lambda>k. length F + Suc k < rateLimitMax) [0..<length rest]"
      by simp
    with True ok split show ?thesis
      by (simp add: map_upt_shift del: upt_Suc)
  next
    case False
    have b1: "bucketOf ?rl1 ip = F"
      using False by (simp add: bucketOf_allow ok valid)
    have "\<forall>n \<in> set rest. slideWindow (n - rateLimitWindow) (bucketOf ?rl1 ip) = F"
    proof
      fix n assume n: "n \<in> set rest"
      then have "slideWindow (n - rateLimitWindow) (bucketOf rl ip) = F"
        using Cons.prems(1) by simp
      then show "slideWindow (n - rateLimitWindow) (bucketOf ?rl1 ip) = F"
        using slideWindow_idem[of "n - rateLimitWindow" "bucketOf rl ip"] by (simp add: b1)
    qed
    from Cons.IH[OF this win]
    have "fst (allowSeq ?rl1 ip rest) = map (\<lambda>k. length F + k < rateLimitMax) [0..<length rest]"
      by simp
    moreover have "map (\<lambda>k. length F + k < rateLimitMax) [0..<length rest] =
                   map (\<lambda>k. length F + Suc k < rateLimitMax) [0..<length rest]"
      using False by simp
    ultimately show ?thesis
      using False ok split by (simp add: map_upt_shift del: upt_Suc)
  qed
qed

lemma bucketOf_gcTick:
  "bucketOf (gcTick tick rl) ip = slideWindow (tick - rateLimitWindow) (bucketOf rl ip)"
  by (auto simp add: gcTick_def bucketOf_def slideWindow_def Let_def split: option.split)

lemma gcTick_None_iff:
  "buckets (gcTick tick rl) ip = None \<longleftrightarrow>
     slideWindow (tick - rateLimitWindow) (bucketOf rl ip) = []"
  by (auto simp add: gcTick_def bucketOf_def slideWindow_def Let_def split: option.split)

lemma gcRun_snoc: "gcRun (ticks @ [tick]) rl = gcTick tick (gcRun ticks rl)"
  by (induction ticks arbitrary: rl) simp_all

lemma bucketOf_gcRun_subset: "set (bucketOf (gcRun ticks rl) ip) \<subseteq> set (bucketOf rl ip)"
proof (induction ticks arbitrary: rl)
  case Nil
  show ?case by simp
next
  case (Cons tick ticks)
  have "set (bucketOf (gcTick tick rl) ip) \<subseteq> set (bucketOf rl ip)"
    by (auto simp: bucketOf_gcTick slideWindow_def)
  with Cons.IH[of "gcTick tick rl"] show ?case by auto
qed

lemma gcRun_removes:
  assumes "ticks \<noteq> []"
      and "\<forall>t \<in> set (bucketOf rl ip). t + rateLimitWindow \<le> last ticks"
  shows "buckets (gcRun ticks rl) ip = None"
proof -
  from assms(1) obtain front where ticks: "ticks = front @ [last ticks]"
    by (metis append_butlast_last_id)
  have "\<forall>t \<in> set (bucketOf (gcRun front rl) ip). t + rateLimitWindow \<le> last ticks"
    using assms(2) bucketOf_gcRun_subset[of front rl ip] by blast
  then have "slideWindow (last ticks - rateLimitWindow) (bucketOf (gcRun front rl) ip) = []"
    by (fastforce simp: slideWindow_def filter_empty_conv)
  then have "buckets (gcTick (last ticks) (gcRun front rl)) ip = None"
    by (simp add: gcTick_None_iff)
  then show ?thesis
    using ticks gcRun_snoc[of front "last ticks" rl] by simp
qed

text \<open>
  C4. One call of \<open>allow\<close> admits exactly when fewer than 5 recorded timestamps of the origin
  lie inside the window; the bucket afterwards is the pruned bucket, with the new timestamp
  appended only on admission, and other origins are untouched. Hence, for an origin with no
  recorded timestamp inside the window, requests that all lie within one window (any two less
  than 60 seconds apart) are answered: the first five admitted, every later one rejected. A
  garbage-collection tick removes the bucket of an origin all of whose timestamps are at
  least a full window old, and keeps the pruned bucket otherwise; so after any run of ticks
  whose last one comes a full window after the origin's timestamps, the bucket is gone.
\<close>

theorem rateLimiter_window:
  "fst (allow now ip rl) =
     (length (slideWindow (now - rateLimitWindow) (bucketOf rl ip)) < 5) \<and>
   bucketOf (snd (allow now ip rl)) ip =
     slideWindow (now - rateLimitWindow) (bucketOf rl ip) @
     (if fst (allow now ip rl) then [now] else []) \<and>
   (\<forall>other. other \<noteq> ip \<longrightarrow> buckets (snd (allow now ip rl)) other = buckets rl other) \<and>
   ((\<forall>t \<in> set (bucketOf rl ip). \<forall>n \<in> set ts. t \<le> n - rateLimitWindow) \<and>
    (\<forall>t \<in> set ts. \<forall>n \<in> set ts. n - t < rateLimitWindow) \<longrightarrow>
      fst (allowSeq rl ip ts) = map (\<lambda>k. k < 5) [0..<length ts]) \<and>
   ((\<forall>t \<in> set (bucketOf rl ip). t + rateLimitWindow \<le> tick) \<longrightarrow>
      buckets (gcTick tick rl) ip = None) \<and>
   ((\<exists>t \<in> set (bucketOf rl ip). tick < t + rateLimitWindow) \<longrightarrow>
      buckets (gcTick tick rl) ip = Some (slideWindow (tick - rateLimitWindow) (bucketOf rl ip))) \<and>
   (ticks \<noteq> [] \<and> (\<forall>t \<in> set (bucketOf rl ip). t + rateLimitWindow \<le> last ticks) \<longrightarrow>
      buckets (gcRun ticks rl) ip = None)"
proof -
  have a: "fst (allow now ip rl) =
     (length (slideWindow (now - rateLimitWindow) (bucketOf rl ip)) < 5)"
    by (simp add: allow_result rateLimitMax_def)
  have b: "\<forall>other. other \<noteq> ip \<longrightarrow> buckets (snd (allow now ip rl)) other = buckets rl other"
    by (simp add: allow_result)
  have c: "fst (allowSeq rl ip ts) = map (\<lambda>k. k < 5) [0..<length ts]"
    if stale: "\<forall>t \<in> set (bucketOf rl ip). \<forall>n \<in> set ts. t \<le> n - rateLimitWindow"
      and win: "\<forall>t \<in> set ts. \<forall>n \<in> set ts. n - t < rateLimitWindow"
  proof -
    have "\<forall>n \<in> set ts. slideWindow (n - rateLimitWindow) (bucketOf rl ip) = []"
      using stale by (fastforce simp: slideWindow_def filter_empty_conv)
    moreover have "\<forall>t \<in> set ts. \<forall>n \<in> set ts. n - rateLimitWindow < t"
    proof (intro ballI)
      fix t n assume "t \<in> set ts" "n \<in> set ts"
      with win have "n - t < rateLimitWindow" by blast
      then show "n - rateLimitWindow < t" by arith
    qed
    ultimately show ?thesis
      using allowSeq_answers[of ts rl ip "[]"] by (simp add: rateLimitMax_def)
  qed
  have d: "buckets (gcTick tick rl) ip = None"
    if "\<forall>t \<in> set (bucketOf rl ip). t + rateLimitWindow \<le> tick"
  proof (cases "buckets rl ip")
    case None
    then show ?thesis by (simp add: gcTick_def)
  next
    case (Some stamps)
    with that have "slideWindow (tick - rateLimitWindow) stamps = []"
      by (auto simp: slideWindow_def filter_empty_conv bucketOf_def)
    with Some show ?thesis by (simp add: gcTick_def)
  qed
  have e: "buckets (gcTick tick rl) ip = Some (slideWindow (tick - rateLimitWindow) (bucketOf rl ip))"
    if "\<exists>t \<in> set (bucketOf rl ip). tick < t + rateLimitWindow"
  proof (cases "buckets rl ip")
    case None
    with that show ?thesis by (simp add: bucketOf_def)
  next
    case (Some stamps)
    from that Some obtain t where t: "t \<in> set stamps" "tick < t + rateLimitWindow"
      by (auto simp: bucketOf_def)
    from t(2) have "tick - rateLimitWindow < t" by arith
    with t(1) have "slideWindow (tick - rateLimitWindow) stamps \<noteq> []"
      by (auto simp: slideWindow_def filter_empty_conv)
    with Some show ?thesis by (simp add: gcTick_def bucketOf_def)
  qed
  have f: "ticks \<noteq> [] \<and> (\<forall>t \<in> set (bucketOf rl ip). t + rateLimitWindow \<le> last ticks) \<longrightarrow>
      buckets (gcRun ticks rl) ip = None"
    using gcRun_removes[of ticks rl ip] by blast
  from a b c d e f bucketOf_allow[of now ip rl] show ?thesis by blast
qed

text \<open>
  Six requests of one origin ten seconds apart: five admitted, the sixth rejected; a seventh
  at 55 s is rejected, one at 65 s would be admitted; a tick at 300 s removes the bucket,
  also when a tick at 60 s came before it.
\<close>

theorem rateLimiter_window_witness:
  "fst (allowSeq newRateLimiter ''10.0.0.1'' exBurst) = [True, True, True, True, True, False] \<and>
   bucketOf (snd (allowSeq newRateLimiter ''10.0.0.1'' exBurst)) ''10.0.0.1'' =
     [0, 10000000000, 20000000000, 30000000000, 40000000000] \<and>
   fst (allow 55000000000 ''10.0.0.1'' (snd (allowSeq newRateLimiter ''10.0.0.1'' exBurst))) = False \<and>
   fst (allow 65000000000 ''10.0.0.1'' (snd (allowSeq newRateLimiter ''10.0.0.1'' exBurst))) = True \<and>
   buckets (gcTick 300000000000 (snd (allowSeq newRateLimiter ''10.0.0.1'' exBurst))) ''10.0.0.1'' = None \<and>
   buckets (gcRun [60000000000, 300000000000] (snd (allowSeq newRateLimiter ''10.0.0.1'' exBurst)))
     ''10.0.0.1'' = None"
proof -
  have run: "allowSeq newRateLimiter ''10.0.0.1'' exBurst =
     ([True, True, True, True, True, False],
      \<lparr>buckets = [''10.0.0.1'' \<mapsto> [0, 10000000000, 20000000000, 30000000000, 40000000000]]\<rparr>)"
    by (simp add: exBurst_def newRateLimiter_def allow_def bucketOf_def slideWindow_def
        rateLimitMax_def rateLimitWindow_def)
  show ?thesis
    using rateLimiter_window [of 55000000000 "''10.0.0.1''" newRateLimiter exBurst 0]
      rateLimiter_window [of 65000000000 "''10.0.0.1''"
        "snd (allowSeq newRateLimiter ''10.0.0.1'' exBurst)" "[]" 300000000000
        "[60000000000, 300000000000]"]
    by (simp add: run bucketOf_def allow_def slideWindow_def rateLimitMax_def
        rateLimitWindow_def gcTick_def)
qed

subsection \<open>Stats aggregation\<close>

lemma fold_upd_other:
  "k \<notin> key ` set xs \<Longrightarrow> fold (\<lambda>s m. m(key s \<mapsto> s)) xs m0 k = m0 k"
  by (induction xs arbitrary: m0) auto

lemma fold_upd_lookup:
  "distinct (map key xs) \<Longrightarrow> x \<in> set xs \<Longrightarrow> fold (\<lambda>s m. m(key s \<mapsto> s)) xs m0 (key x) = Some x"
proof (induction xs arbitrary: m0)
  case Nil
  then show ?case by simp
next
  case (Cons a xs)
  have step: "fold (\<lambda>s m. m(key s \<mapsto> s)) (a # xs) m0 =
              fold (\<lambda>s m. m(key s \<mapsto> s)) xs (m0(key a \<mapsto> a))"
    by (simp only: fold_simps comp_apply)
  show ?case
  proof (cases "x = a")
    case True
    from Cons.prems(1) have "key a \<notin> key ` set xs" by simp
    from fold_upd_other[OF this, of "m0(key a \<mapsto> a)"]
    have "fold (\<lambda>s m. m(key s \<mapsto> s)) xs (m0(key a \<mapsto> a)) (key a) = Some a"
      by simp
    then show ?thesis unfolding step True .
  next
    case False
    with Cons.prems have "distinct (map key xs)" "x \<in> set xs" by simp_all
    then show ?thesis unfolding step by (rule Cons.IH)
  qed
qed

lemma sentStats_id: "map cs_id (sentStats eng lst) = map sm_ID lst"
  by (simp add: sentStats_def statsWorker_def split: prod.split)

lemma received_perm:
  assumes "mset arrival = mset [0..<length xs]"
  shows "mset (map (\<lambda>i. xs ! i) arrival) = mset xs"
proof -
  have "mset (map (\<lambda>i. xs ! i) arrival) = image_mset (\<lambda>i. xs ! i) (mset arrival)"
    by simp
  also have "\<dots> = image_mset (\<lambda>i. xs ! i) (mset [0..<length xs])"
    using assms by simp
  also have "\<dots> = mset (map (\<lambda>i. xs ! i) [0..<length xs])"
    by simp
  also have "\<dots> = mset xs"
    by (simp add: map_nth)
  finally show ?thesis .
qed

lemma collectStats_lookup:
  assumes perm: "mset received = mset sent"
      and dist: "distinct (map cs_id sent)"
      and mem: "s \<in> set sent"
  shows "statsLookup (collectStats received) (cs_id s) = s"
proof -
  from perm have "mset (map cs_id received) = mset (map cs_id sent)"
    by (metis mset_map)
  with dist have "distinct (map cs_id received)"
    by (metis mset_eq_imp_distinct_iff)
  moreover from perm mem have "s \<in> set received"
    by (metis mset_eq_setD)
  ultimately have "collectStats received (cs_id s) = Some s"
    unfolding collectStats_def by (rule fold_upd_lookup)
  then show ?thesis by (simp add: statsLookup_def)
qed

lemma statsCalls_running:
  "statsCalls eng lst = map sm_ID (filter (\<lambda>c. sm_State c = ''running'') lst)"
  by (induction lst) (simp_all add: statsCalls_def statsWorker_def split: prod.split)

text \<open>
  C6. Let the engine list \<open>N\<close> containers with distinct identifiers of at least 12 bytes,
  and let every goroutine's message be received exactly once, in any order. Then
  \<open>GetContainers\<close> returns exactly \<open>N\<close> entries, the \<open>i\<close>-th for the \<open>i\<close>-th identifier; an
  entry of a container that is not running has CPU, memory and limit zero; an entry of a
  running container carries what \<open>fetchStats\<close> computed for its own identifier; the engine's
  stats endpoint is called for the running identifiers and no others; and \<open>fetchStats\<close>
  gives the zero sample when the call fails, the body is unreadable or it does not parse.
\<close>

theorem GetContainers_batch:
  assumes perm: "mset arrival = mset [0..<length lst]"
      and dist: "distinct (map sm_ID lst)"
      and ids: "\<forall>c \<in> set lst. 12 \<le> length (sm_ID c)"
  shows "\<exists>result. GetContainers eng arrival (Inr lst) = Inr result \<and>
           length result = length lst \<and>
           (\<forall>i < length lst.
              ct_FullID (result ! i) = sm_ID (lst ! i) \<and>
              (sm_State (lst ! i) \<noteq> ''running'' \<longrightarrow>
                 ct_CPU (result ! i) = 0 \<and> ct_Memory (result ! i) = 0 \<and>
                 ct_MemoryLimit (result ! i) = 0) \<and>
              (sm_State (lst ! i) = ''running'' \<longrightarrow>
                 (ct_CPU (result ! i), ct_Memory (result ! i), ct_MemoryLimit (result ! i)) =
                   fetchStats eng (sm_ID (lst ! i)))) \<and>
           mset (statsCalls eng lst) =
             mset (map sm_ID (filter (\<lambda>c. sm_State c = ''running'') lst)) \<and>
           (\<forall>k. ContainerStats eng k = StatsError \<or> ContainerStats eng k = BodyError \<or>
                (\<exists>b. ContainerStats eng k = Body b \<and> unmarshalStats eng b = None) \<longrightarrow>
                fetchStats eng k = (0, 0, 0))"
proof -
  let ?sent = "sentStats eng lst"
  let ?received = "map (\<lambda>i. ?sent ! i) arrival"
  let ?m = "collectStats ?received"
  let ?result = "map (containerOf ?m) lst"
  have len: "length ?sent = length lst"
    by (simp add: sentStats_def)
  have rp: "mset ?received = mset ?sent"
    using perm received_perm[of arrival ?sent] by (simp add: len)
  have ds: "distinct (map cs_id ?sent)"
    using dist by (simp add: sentStats_id)
  have look: "statsLookup ?m (sm_ID (lst ! i)) =
                fst (statsWorker eng (sm_ID (lst ! i)) (sm_State (lst ! i) = ''running''))"
    if i: "i < length lst" for i
  proof -
    let ?s = "?sent ! i"
    have s: "?s = fst (statsWorker eng (sm_ID (lst ! i)) (sm_State (lst ! i) = ''running''))"
      using i by (simp add: sentStats_def)
    have "?s \<in> set ?sent" using i len by simp
    from collectStats_lookup[OF rp ds this] have "statsLookup ?m (cs_id ?s) = ?s" .
    moreover have "cs_id ?s = sm_ID (lst ! i)"
      unfolding s by (simp add: statsWorker_def split: prod.split)
    ultimately show ?thesis using s by simp
  qed
  have res: "GetContainers eng arrival (Inr lst) = Inr ?result"
  proof -
    from ids have "\<not> (\<exists>c \<in> set lst. length (sm_ID c) < 12)" by auto
    then show ?thesis by (simp add: GetContainers_def resultLoop_eq Let_def)
  qed
  have entry: "ct_FullID (?result ! i) = sm_ID (lst ! i) \<and>
              (sm_State (lst ! i) \<noteq> ''running'' \<longrightarrow>
                 ct_CPU (?result ! i) = 0 \<and> ct_Memory (?result ! i) = 0 \<and>
                 ct_MemoryLimit (?result ! i) = 0) \<and>
              (sm_State (lst ! i) = ''running'' \<longrightarrow>
                 (ct_CPU (?result ! i), ct_Memory (?result ! i), ct_MemoryLimit (?result ! i)) =
                   fetchStats eng (sm_ID (lst ! i)))"
    if i: "i < length lst" for i
    using i look[OF i]
    by (simp add: containerOf_def statsWorker_def split: prod.split)
  have calls: "mset (statsCalls eng lst) =
             mset (map sm_ID (filter (\<lambda>c. sm_State c = ''running'') lst))"
    by (simp add: statsCalls_running)
  have fail: "\<forall>k. ContainerStats eng k = StatsError \<or> ContainerStats eng k = BodyError \<or>
                (\<exists>b. ContainerStats eng k = Body b \<and> unmarshalStats eng b = None) \<longrightarrow>
                fetchStats eng k = (0, 0, 0)"
    by (auto simp: fetchStats_def)
  from res entry calls fail show ?thesis
    by (intro exI[of _ ?result]) simp
qed

text \<open>
  Three containers, one running with a readable sample, one stopped, one running whose
  stats call fails; the messages arrive in the order third, first, second.
\<close>

theorem GetContainers_batch_witness:
  "mset [2, 0, 1] = mset [0..<length [exApp, exStopped, exFailing]] \<and>
   distinct (map sm_ID [exApp, exStopped, exFailing]) \<and>
   12 \<le> length (sm_ID exApp) \<and> 12 \<le> length (sm_ID exStopped) \<and> 12 \<le> length (sm_ID exFailing) \<and>
   ContainerStats exEngine (sm_ID exFailing) = StatsError \<and>
   (\<exists>result. GetContainers exEngine [2, 0, 1] (Inr [exApp, exStopped, exFailing]) = Inr result \<and>
      length result = 3 \<and>
      ct_CPU (result ! 0) = 0x4029000000000000 \<and> ct_MemoryLimit (result ! 0) = 1048576 \<and>
      ct_CPU (result ! 1) = 0 \<and> ct_Memory (result ! 1) = 0 \<and> ct_MemoryLimit (result ! 1) = 0 \<and>
      ct_CPU (result ! 2) = 0 \<and> ct_Memory (result ! 2) = 0 \<and> ct_MemoryLimit (result ! 2) = 0) \<and>
   statsCalls exEngine [exApp, exStopped, exFailing] = [sm_ID exApp, sm_ID exFailing]"
proof -
  have p: "mset [2, 0, 1] = mset [0..<length [exApp, exStopped, exFailing]]"
    by (simp add: upt_rec)
  have d: "distinct (map sm_ID [exApp, exStopped, exFailing])"
    by (simp add: exApp_def exStopped_def exFailing_def)
  have i: "\<forall>c \<in> set [exApp, exStopped, exFailing]. 12 \<le> length (sm_ID c)"
    by (simp add: exApp_def exStopped_def exFailing_def)
  have f: "fetchStats exEngine (sm_ID exApp) = (0x4029000000000000, 0, 1048576)"
    "ContainerStats exEngine (sm_ID exFailing) = StatsError"
    by (simp_all add: fetchStats_def exEngine_def exApp_def exFailing_def calcMemory_def
        exStatsCacheLarger_def)
  have st: "sm_State exApp = ''running''" "sm_State exStopped \<noteq> ''running''"
    "sm_State exFailing = ''running''"
    by (simp_all add: exApp_def exStopped_def exFailing_def)
  have n: "(0::nat) < 3" "(1::nat) < 3" "(2::nat) < 3" by simp_all
  from GetContainers_batch [OF p d i, of exEngine] obtain result where
    r: "GetContainers exEngine [2, 0, 1] (Inr [exApp, exStopped, exFailing]) = Inr result"
      "length result = 3"
      "\<And>k. k < 3 \<Longrightarrow>
          (sm_State ([exApp, exStopped, exFailing] ! k) \<noteq> ''running'' \<longrightarrow>
             ct_CPU (result ! k) = 0 \<and> ct_Memory (result ! k) = 0 \<and> ct_MemoryLimit (result ! k) = 0) \<and>
          (sm_State ([exApp, exStopped, exFailing] ! k) = ''running'' \<longrightarrow>
             (ct_CPU (result ! k), ct_Memory (result ! k), ct_MemoryLimit (result ! k)) =
               fetchStats exEngine (sm_ID ([exApp, exStopped, exFailing] ! k)))"
      "fetchStats exEngine (sm_ID exFailing) = (0, 0, 0)"
    using f(2) by auto
  from r(3)[OF n(1)] r(3)[OF n(2)] r(3)[OF n(3)] f st r(4)
  have "ct_CPU (result ! 0) = 0x4029000000000000 \<and> ct_MemoryLimit (result ! 0) = 1048576 \<and>
      ct_CPU (result ! 1) = 0 \<and> ct_Memory (result ! 1) = 0 \<and> ct_MemoryLimit (result ! 1) = 0 \<and>
      ct_CPU (result ! 2) = 0 \<and> ct_Memory (result ! 2) = 0 \<and> ct_MemoryLimit (result ! 2) = 0"
    by simp
  moreover have "statsCalls exEngine [exApp, exStopped, exFailing] = [sm_ID exApp, sm_ID exFailing]"
    using st by (simp add: statsCalls_running)
  ultimately show ?thesis
    using p d i f(2) r(1,2) by auto
qed

subsection \<open>State broadcaster\<close>

text \<open>
  C8. When the engine's listing fails for the container sub-fetch, for the stack sub-fetch,
  or for both, \<open>pushState\<close> still builds a \<open>state\<close> message, with the empty list for each
  failed half and the other half as fetched, and offers its encoding to the hub.
\<close>

theorem pushState_degrades:
  "(GetComposeStacks (srv_host s) (srv_Composes s) stackListing = Inr composes \<and>
    json_Marshal s \<lparr>ws_Type = ''state'', ws_Containers = [], ws_Composes = composes,
                    ws_Timestamp = now\<rparr> = Some data
    \<longrightarrow> pushState s arrival (Inl e) stackListing now = Offered data) \<and>
   (GetContainers (srv_engine s) arrival containerListing = Inr containers \<and>
    json_Marshal s \<lparr>ws_Type = ''state'', ws_Containers = containers, ws_Composes = [],
                    ws_Timestamp = now\<rparr> = Some data
    \<longrightarrow> pushState s arrival containerListing (Inl e) now = Offered data) \<and>
   (json_Marshal s \<lparr>ws_Type = ''state'', ws_Containers = [], ws_Composes = [],
                    ws_Timestamp = now\<rparr> = Some data
    \<longrightarrow> pushState s arrival (Inl e) (Inl e') now = Offered data)"
  by (simp add: pushState_def GetContainers_def GetComposeStacks_def)

text \<open>
  The engine is unreachable for one listing or for both; the other half is the scenario of the
  specification.
\<close>

theorem pushState_degrades_witness:
  "GetComposeStacks (srv_host exServer) (srv_Composes exServer) (Inr [exApp]) =
     Inr [\<lparr>stack_Name = ''web'', stack_Path = ''/srv/web'', stack_Status = ''partial'',
           stack_Services =
             [\<lparr>svc_Name = ''app'', svc_ContainerID = ''0123456789ab'', svc_Status = ''Up 2 hours'',
               svc_State = ''running'', svc_Running = True\<rparr>,
              \<lparr>svc_Name = ''db'', svc_ContainerID = [], svc_Status = ''not created'',
               svc_State = ''stopped'', svc_Running = False\<rparr>]\<rparr>] \<and>
   pushState exServer [0] (Inl ''engine unreachable'') (Inr [exApp]) 1700000100 =
     Offered ''state containers=[] composes=[...]'' \<and>
   pushState exServer [0] (Inr [exApp]) (Inl ''engine unreachable'') 1700000100 =
     Offered ''state containers=[...] composes=[]'' \<and>
   pushState exServer [] (Inl ''engine unreachable'') (Inl ''engine unreachable'') 1700000100 =
     Offered ''state containers=[] composes=[]''"
proof -
  have stacks: "GetComposeStacks (srv_host exServer) (srv_Composes exServer) (Inr [exApp]) =
     Inr [\<lparr>stack_Name = ''web'', stack_Path = ''/srv/web'', stack_Status = ''partial'',
           stack_Services =
             [\<lparr>svc_Name = ''app'', svc_ContainerID = ''0123456789ab'', svc_Status = ''Up 2 hours'',
               svc_State = ''running'', svc_Running = True\<rparr>,
              \<lparr>svc_Name = ''db'', svc_ContainerID = [], svc_Status = ''not created'',
               svc_State = ''stopped'', svc_Running = False\<rparr>]\<rparr>]"
    by (simp add: exServer_def GetComposeStacks_def exWeb_snapshot)
  have conts: "\<exists>cs. GetContainers (srv_engine exServer) [0] (Inr [exApp]) = Inr cs \<and> cs \<noteq> []"
    by (simp add: GetContainers_def resultLoop_eq exApp_def)
  then obtain cs where cs: "GetContainers (srv_engine exServer) [0] (Inr [exApp]) = Inr cs" "cs \<noteq> []"
    by blast
  from stacks cs
    pushState_degrades [where s = exServer and arrival = "[0]" and now = 1700000100
      and containerListing = "Inr [exApp]" and stackListing = "Inr [exApp]" and containers = cs
      and e = "''engine unreachable''"]
    pushState_degrades [where s = exServer and arrival = "[]" and now = 1700000100
      and e = "''engine unreachable''" and e' = "''engine unreachable''"]
  show ?thesis
    by (simp add: exServer_def)
qed

end
